theory Spec2Isabelle
  imports Complex_Main
begin

section \<open>Fresnel equations: the evaluator, the sample grid and the ticks\<close>

text \<open>
  The script \<^verbatim>\<open>Fresnel_equation_plot.py\<close> evaluates the Fresnel equations (Griffiths,
  equations 9.106 to 9.116) for light passing from air into glass, over a grid of angles of
  incidence. The embedding is over the real numbers: a NumPy \<^verbatim>\<open>float64\<close> is read as the
  real number it stands for. Rounding is modelled apart, for the reflectance and the
  transmittance, in the definitions with the suffix \<open>_f64\<close>. NumPy does not raise on a
  division by zero or on the square root of a negative number: it returns \<^verbatim>\<open>inf\<close> or
  \<^verbatim>\<open>nan\<close>. Such a value is not a real number; it is \<open>None\<close> here, and whatever is
  computed from it is \<open>None\<close> as well.
\<close>

subsection \<open>Refractive indices\<close>

definition n_1 :: real where
  "n_1 = 1"

definition n_2 :: real where
  "n_2 = 3 / 2"

subsection \<open>NumPy primitives\<close>

definition np_sqrt :: "real \<Rightarrow> real option" where
  "np_sqrt x = (if x < 0 then None else Some (sqrt x))"

definition np_divide :: "real \<Rightarrow> real \<Rightarrow> real option" where
  "np_divide a b = (if b = 0 then None else Some (a / b))"

definition radians :: "real \<Rightarrow> real" where
  "radians x = x * pi / 180"

definition degrees :: "real \<Rightarrow> real" where
  "degrees x = x * 180 / pi"

text \<open>
  \<^verbatim>\<open>np.linspace(start, stop, num)\<close> with the default \<^verbatim>\<open>endpoint=True\<close>: the step is
  \<^verbatim>\<open>(stop - start) / (num - 1)\<close>, the samples are \<^verbatim>\<open>arange(0, num) * step + start\<close>,
  and the last sample is overwritten by \<^verbatim>\<open>stop\<close> when \<^verbatim>\<open>num > 1\<close>.
\<close>

definition linspace :: "real \<Rightarrow> real \<Rightarrow> nat \<Rightarrow> real list" where
  "linspace start stop num =
     (let step = (stop - start) / real (num - 1);
          y = map (\<lambda>i. real i * step + start) [0..<num]
      in if 1 < num then y[num - 1 := stop] else y)"

text \<open>
  \<^verbatim>\<open>np.arange(start, stop, step)\<close> on integers with a positive step: the values
  \<^verbatim>\<open>start + i * step\<close> below \<^verbatim>\<open>stop\<close>, that is \<open>\<lceil>(stop - start) / step\<rceil>\<close> of them.
\<close>

definition arange :: "int \<Rightarrow> int \<Rightarrow> int \<Rightarrow> int list" where
  "arange start stop step =
     map (\<lambda>i. start + int i * step) [0..<nat ((stop - start + step - 1) div step)]"

text \<open>
  \<^verbatim>\<open>np.round(x, decimals)\<close> scales by \<open>10 ^ decimals\<close>, rounds to the nearest integer with
  ties going to the even one (\<^verbatim>\<open>rint\<close>), and scales back.
\<close>

definition rint :: "real \<Rightarrow> real" where
  "rint x =
     (let f = \<lfloor>x\<rfloor>; d = x - of_int f
      in if d < 1 / 2 then of_int f
         else if 1 / 2 < d then of_int (f + 1)
         else if even f then of_int f else of_int (f + 1))"

definition np_round :: "real \<Rightarrow> nat \<Rightarrow> real" where
  "np_round x decimals = rint (x * 10 ^ decimals) / 10 ^ decimals"

text \<open>
  \<^verbatim>\<open>np.setdiff1d(ar1, ar2)\<close>: the sorted, unique values of \<^verbatim>\<open>ar1\<close> that are not in
  \<^verbatim>\<open>ar2\<close>.
\<close>

definition setdiff1d :: "real list \<Rightarrow> real list \<Rightarrow> real list" where
  "setdiff1d ar1 ar2 = filter (\<lambda>x. x \<notin> set ar2) (sort (remdups ar1))"

subsection \<open>The optics evaluator\<close>

text \<open>The argument of the square root in \<^verbatim>\<open>alphaAndBeta\<close>, for indices \<open>n1\<close> and \<open>n2\<close>.\<close>

definition radicand :: "real \<Rightarrow> real \<Rightarrow> real \<Rightarrow> real" where
  "radicand n1 n2 theta_i = 1 - ((n1 / n2) * sin theta_i)\<^sup>2"

definition alphaAndBeta :: "real \<Rightarrow> (real \<times> real) option" where
  "alphaAndBeta theta_i =
     (case np_sqrt (radicand n_1 n_2 theta_i) of
        None \<Rightarrow> None
      | Some s \<Rightarrow>
          (case np_divide s (cos theta_i) of
             None \<Rightarrow> None
           | Some alpha \<Rightarrow> Some (alpha, n_2 / n_1)))"

definition reflectionAndTransmissionCoefficient :: "real \<Rightarrow> (real \<times> real) option" where
  "reflectionAndTransmissionCoefficient theta_i =
     (case map_option fst (alphaAndBeta theta_i) of
        None \<Rightarrow> None
      | Some alpha \<Rightarrow>
          (case map_option snd (alphaAndBeta theta_i) of
             None \<Rightarrow> None
           | Some beta \<Rightarrow>
               (case np_divide (alpha - beta) (alpha + beta) of
                  None \<Rightarrow> None
                | Some reflection_coefficient \<Rightarrow>
                    (case np_divide 2 (alpha + beta) of
                       None \<Rightarrow> None
                     | Some transmission_coefficient \<Rightarrow>
                         Some (reflection_coefficient, transmission_coefficient)))))"

definition reflectanceAndTransmittance :: "real \<Rightarrow> (real \<times> real) option" where
  "reflectanceAndTransmittance theta_i =
     (case map_option fst (alphaAndBeta theta_i) of
        None \<Rightarrow> None
      | Some alpha \<Rightarrow>
          (case map_option snd (alphaAndBeta theta_i) of
             None \<Rightarrow> None
           | Some beta \<Rightarrow>
               (case np_divide (alpha - beta) (alpha + beta) of
                  None \<Rightarrow> None
                | Some q \<Rightarrow>
                    (case np_divide 2 (alpha + beta) of
                       None \<Rightarrow> None
                     | Some p \<Rightarrow> Some (q\<^sup>2, alpha * beta * p\<^sup>2)))))"

subsection \<open>The sampler\<close>

definition theta_range :: "real list" where
  "theta_range = map radians (linspace 0 100 100)"

definition reflection_coefficient :: "real option list" where
  "reflection_coefficient =
     map (\<lambda>theta. map_option fst (reflectionAndTransmissionCoefficient theta)) theta_range"

definition transmission_coefficient :: "real option list" where
  "transmission_coefficient =
     map (\<lambda>theta. map_option snd (reflectionAndTransmissionCoefficient theta)) theta_range"

definition reflectance :: "real option list" where
  "reflectance =
     map (\<lambda>theta. map_option fst (reflectanceAndTransmittance theta)) theta_range"

definition transmittance :: "real option list" where
  "transmittance =
     map (\<lambda>theta. map_option snd (reflectanceAndTransmittance theta)) theta_range"

subsection \<open>Brewster's angle and the ticks of the x-axis\<close>

definition theta_brewster :: real where
  "theta_brewster = degrees (arctan (n_2 / n_1))"

definition ticks_x :: "real list" where
  "ticks_x =
     setdiff1d
       (map of_int (arange 0 90 10) @ map (\<lambda>x. np_round x 3) [theta_brewster])
       [50, 60]"

subsection \<open>The formulas of the specification\<close>

text \<open>
  The six formulas as the specification writes them, as plain real expressions, to compare
  with what the evaluator returns.
\<close>

definition spec_alpha :: "real \<Rightarrow> real" where
  "spec_alpha theta_i = sqrt (1 - ((n_1 / n_2) * sin theta_i)\<^sup>2) / cos theta_i"

definition spec_beta :: real where
  "spec_beta = n_2 / n_1"

definition spec_r :: "real \<Rightarrow> real" where
  "spec_r theta_i = (spec_alpha theta_i - spec_beta) / (spec_alpha theta_i + spec_beta)"

definition spec_t :: "real \<Rightarrow> real" where
  "spec_t theta_i = 2 / (spec_alpha theta_i + spec_beta)"

definition spec_R :: "real \<Rightarrow> real" where
  "spec_R theta_i =
     ((spec_alpha theta_i - spec_beta) / (spec_alpha theta_i + spec_beta))\<^sup>2"

definition spec_T :: "real \<Rightarrow> real" where
  "spec_T theta_i =
     spec_alpha theta_i * spec_beta * (2 / (spec_alpha theta_i + spec_beta))\<^sup>2"

subsection \<open>Binary64 arithmetic\<close>

text \<open>
  The values the script computes are IEEE binary64 numbers. \<open>fl\<close> rounds a real number to
  the nearest number with 53 significant bits, ties going to the even one, as every
  arithmetic operation on \<^verbatim>\<open>float64\<close> does. The exponent is not bounded here: overflow to
  \<^verbatim>\<open>inf\<close> and gradual underflow are not modelled.
\<close>

definition fl :: "real \<Rightarrow> real" where
  "fl x =
     (if x = 0 then 0
      else let ulp = 2 powr (of_int \<lfloor>log 2 \<bar>x\<bar>\<rfloor> - 52) in rint (x / ulp) * ulp)"

text \<open>
  \<^verbatim>\<open>np.sin\<close>, \<^verbatim>\<open>np.cos\<close> and \<^verbatim>\<open>np.sqrt\<close> are taken as correctly rounded (at 0 the
  sine and the cosine are exact in any case), and \<^verbatim>\<open>x ** 2\<close> as the correctly rounded
  square. Division and square root return \<^verbatim>\<open>inf\<close> or \<^verbatim>\<open>nan\<close>, here \<open>None\<close>, where the
  real functions above do.
\<close>

definition f64_sin :: "real \<Rightarrow> real" where
  "f64_sin x = fl (sin x)"

definition f64_cos :: "real \<Rightarrow> real" where
  "f64_cos x = fl (cos x)"

definition f64_sqrt :: "real \<Rightarrow> real option" where
  "f64_sqrt x = (if x < 0 then None else Some (fl (sqrt x)))"

definition f64_divide :: "real \<Rightarrow> real \<Rightarrow> real option" where
  "f64_divide a b = (if b = 0 then None else Some (fl (a / b)))"

definition f64_square :: "real \<Rightarrow> real" where
  "f64_square x = fl (x * x)"

text \<open>
  The evaluator with every operation of the source rounded: the quotient \<^verbatim>\<open>n_1/n_2\<close>, the
  product with the sine, the square, the difference from 1, the square root, the cosine and
  the quotient in \<^verbatim>\<open>alphaAndBeta\<close>; the difference, the sum, the two quotients, the two
  squares and the two products in \<^verbatim>\<open>reflectanceAndTransmittance\<close>.
\<close>

definition alphaAndBeta_f64 :: "real \<Rightarrow> (real \<times> real) option" where
  "alphaAndBeta_f64 theta_i =
     (case f64_sqrt (fl (1 - f64_square (fl (fl (n_1 / n_2) * f64_sin theta_i)))) of
        None \<Rightarrow> None
      | Some s \<Rightarrow>
          (case f64_divide s (f64_cos theta_i) of
             None \<Rightarrow> None
           | Some alpha \<Rightarrow> Some (alpha, fl (n_2 / n_1))))"

definition reflectanceAndTransmittance_f64 :: "real \<Rightarrow> (real \<times> real) option" where
  "reflectanceAndTransmittance_f64 theta_i =
     (case map_option fst (alphaAndBeta_f64 theta_i) of
        None \<Rightarrow> None
      | Some alpha \<Rightarrow>
          (case map_option snd (alphaAndBeta_f64 theta_i) of
             None \<Rightarrow> None
           | Some beta \<Rightarrow>
               (case f64_divide (fl (alpha - beta)) (fl (alpha + beta)) of
                  None \<Rightarrow> None
                | Some q \<Rightarrow>
                    (case f64_divide 2 (fl (alpha + beta)) of
                       None \<Rightarrow> None
                     | Some p \<Rightarrow>
                         Some (f64_square q, fl (fl (alpha * beta) * f64_square p))))))"

text \<open>
  Rounding errors are counted in powers of \<open>unit_w = 1 / (1 - 2\<^sup>-\<^sup>5\<^sup>3)\<close>: \<open>rel_err n x y\<close>
  says that \<open>x\<close> is \<open>y\<close> times a factor between \<open>unit_w\<^sup>-\<^sup>n\<close> and \<open>unit_w\<^sup>n\<close>.
\<close>

definition unit_w :: real where
  "unit_w = 1 / (1 - 1 / 2 ^ 53)"

definition rel_err :: "nat \<Rightarrow> real \<Rightarrow> real \<Rightarrow> bool" where
  "rel_err n x y \<longleftrightarrow> (\<exists>g. inverse (unit_w ^ n) \<le> g \<and> g \<le> unit_w ^ n \<and> x = y * g)"

section \<open>Properties of the evaluator\<close>

subsection \<open>Where the evaluator is defined\<close>

lemma alphaAndBeta_Some:
  assumes "cos theta_i \<noteq> 0" and "0 \<le> radicand n_1 n_2 theta_i"
  shows "alphaAndBeta theta_i =
           Some (sqrt (radicand n_1 n_2 theta_i) / cos theta_i, n_2 / n_1)"
  using assms by (simp add: alphaAndBeta_def np_sqrt_def np_divide_def)

lemma coefficient_Some:
  assumes "alphaAndBeta theta_i = Some (alpha, beta)" and "alpha + beta \<noteq> 0"
  shows "reflectionAndTransmissionCoefficient theta_i =
           Some ((alpha - beta) / (alpha + beta), 2 / (alpha + beta))"
  using assms by (simp add: reflectionAndTransmissionCoefficient_def np_divide_def)

lemma coefficient_None:
  assumes "alphaAndBeta theta_i = Some (alpha, beta)" and "alpha + beta = 0"
  shows "reflectionAndTransmissionCoefficient theta_i = None"
  using assms by (simp add: reflectionAndTransmissionCoefficient_def np_divide_def)

lemma reflectance_Some:
  assumes "alphaAndBeta theta_i = Some (alpha, beta)" and "alpha + beta \<noteq> 0"
  shows "reflectanceAndTransmittance theta_i =
           Some (((alpha - beta) / (alpha + beta))\<^sup>2,
                 alpha * beta * (2 / (alpha + beta))\<^sup>2)"
  using assms by (simp add: reflectanceAndTransmittance_def np_divide_def)

lemma reflectance_None:
  assumes "alphaAndBeta theta_i = Some (alpha, beta)" and "alpha + beta = 0"
  shows "reflectanceAndTransmittance theta_i = None"
  using assms by (simp add: reflectanceAndTransmittance_def np_divide_def)

lemma radicand_lower: "5 / 9 \<le> radicand n_1 n_2 theta_i"
proof -
  have "(sin theta_i)\<^sup>2 \<le> 1"
    using abs_sin_le_one [of theta_i] by (simp add: abs_square_le_1)
  then show ?thesis
    by (simp add: radicand_def n_1_def n_2_def power_mult_distrib power2_eq_square)
qed

lemma power_sum_identity:
  fixes alpha beta :: real
  assumes "alpha + beta \<noteq> 0"
  shows "((alpha - beta) / (alpha + beta))\<^sup>2 + alpha * beta * (2 / (alpha + beta))\<^sup>2 = 1"
proof -
  have num: "(alpha - beta)\<^sup>2 + alpha * beta * 2\<^sup>2 = (alpha + beta)\<^sup>2"
    by (simp add: power2_eq_square algebra_simps)
  have "((alpha - beta) / (alpha + beta))\<^sup>2 + alpha * beta * (2 / (alpha + beta))\<^sup>2
      = ((alpha - beta)\<^sup>2 + alpha * beta * 2\<^sup>2) / (alpha + beta)\<^sup>2"
    by (simp add: power_divide add_divide_distrib)
  also have "\<dots> = 1"
    using assms by (simp only: num) simp
  finally show ?thesis .
qed

lemma alphaAndBeta_zero: "alphaAndBeta 0 = Some (1, 3 / 2)"
  by (simp add: alphaAndBeta_def np_sqrt_def np_divide_def radicand_def n_1_def n_2_def)

lemma supplement_brewster:
  "cos (pi - arctan (3 / 2)) = - (2 / sqrt 13)" "sin (pi - arctan (3 / 2)) = 3 / sqrt 13"
proof -
  have s: "sqrt (1 + (3 / 2)\<^sup>2) = sqrt 13 / 2"
    by (rule real_sqrt_unique) (simp_all add: power2_eq_square)
  show "cos (pi - arctan (3 / 2)) = - (2 / sqrt 13)"
    by (simp add: cos_arctan s)
  show "sin (pi - arctan (3 / 2)) = 3 / sqrt 13"
    by (simp add: sin_arctan s)
qed

lemma spec_alpha_supplement: "spec_alpha (pi - arctan (3 / 2)) = - (3 / 2)"
proof -
  have e: "1 - (n_1 / n_2 * (3 / sqrt 13))\<^sup>2 = 9 / 13"
    by (simp add: n_1_def n_2_def power2_eq_square)
  have q: "sqrt (9 / 13) = 3 / sqrt 13"
    by (simp add: real_sqrt_divide)
  have "sqrt (1 - (n_1 / n_2 * (3 / sqrt 13))\<^sup>2) / - (2 / sqrt 13)
      = 3 / sqrt 13 / - (2 / sqrt 13)"
    by (simp only: e q)
  also have "\<dots> = - (3 / 2)"
    by simp
  finally show ?thesis
    by (simp only: spec_alpha_def supplement_brewster)
qed

subsection \<open>The evaluator against the formulas of the specification\<close>

text \<open>
  Claim C1. At every angle of incidence where \<open>cos theta_i\<close> is not zero and the radicand is
  not negative, \<^verbatim>\<open>alphaAndBeta\<close> returns the specification's \<open>alpha\<close> and \<open>beta\<close>. Where
  moreover \<open>alpha + beta\<close> is not zero, so that the quotients of the specification denote,
  \<^verbatim>\<open>reflectionAndTransmissionCoefficient\<close> returns its \<open>r\<close> and \<open>t\<close> and
  \<^verbatim>\<open>reflectanceAndTransmittance\<close> its \<open>R\<close> and \<open>T\<close>; where \<open>alpha + beta\<close> is zero, the
  two functions divide by zero and return no real number.
\<close>

theorem evaluator_computes_formulas:
  assumes "cos theta_i \<noteq> 0" and "0 \<le> 1 - ((n_1 / n_2) * sin theta_i)\<^sup>2"
  shows "alphaAndBeta theta_i = Some (spec_alpha theta_i, spec_beta)
       \<and> (spec_alpha theta_i + spec_beta \<noteq> 0 \<longrightarrow>
            reflectionAndTransmissionCoefficient theta_i = Some (spec_r theta_i, spec_t theta_i)
          \<and> reflectanceAndTransmittance theta_i = Some (spec_R theta_i, spec_T theta_i))
       \<and> (spec_alpha theta_i + spec_beta = 0 \<longrightarrow>
            reflectionAndTransmissionCoefficient theta_i = None
          \<and> reflectanceAndTransmittance theta_i = None)"
proof -
  have ab: "alphaAndBeta theta_i = Some (spec_alpha theta_i, spec_beta)"
    using alphaAndBeta_Some [of theta_i] assms
    by (simp add: radicand_def spec_alpha_def spec_beta_def)
  show ?thesis
    using ab coefficient_Some [OF ab] reflectance_Some [OF ab]
      coefficient_None [OF ab] reflectance_None [OF ab]
    by (simp add: spec_r_def spec_t_def spec_R_def spec_T_def)
qed

theorem evaluator_computes_formulas_witness:
  "cos (0::real) \<noteq> 0 \<and> 0 \<le> 1 - ((n_1 / n_2) * sin (0::real))\<^sup>2
   \<and> spec_alpha 0 + spec_beta \<noteq> 0
   \<and> alphaAndBeta 0 = Some (1, 3 / 2)
   \<and> reflectionAndTransmissionCoefficient 0 = Some (- 1 / 5, 4 / 5)
   \<and> reflectanceAndTransmittance 0 = Some (1 / 25, 24 / 25)
   \<and> cos (pi - arctan (3 / 2)) \<noteq> 0
   \<and> 0 \<le> 1 - ((n_1 / n_2) * sin (pi - arctan (3 / 2)))\<^sup>2
   \<and> spec_alpha (pi - arctan (3 / 2)) + spec_beta = 0
   \<and> reflectionAndTransmissionCoefficient (pi - arctan (3 / 2)) = None
   \<and> reflectanceAndTransmittance (pi - arctan (3 / 2)) = None"
proof -
  have z: "spec_alpha 0 = 1"
    by (simp add: spec_alpha_def)
  have b: "spec_beta = 3 / 2"
    by (simp add: spec_beta_def n_1_def n_2_def)
  have "0 \<le> 1 - ((n_1 / n_2) * (3 / sqrt 13))\<^sup>2"
    by (simp add: n_1_def n_2_def power2_eq_square)
  then have r: "0 \<le> 1 - ((n_1 / n_2) * sin (pi - arctan (3 / 2)))\<^sup>2"
    by (simp only: supplement_brewster)
  have c: "cos (pi - arctan (3 / 2)) \<noteq> 0"
    by simp
  have first: "alphaAndBeta 0 = Some (1, 3 / 2)
      \<and> reflectionAndTransmissionCoefficient 0 = Some (- 1 / 5, 4 / 5)
      \<and> reflectanceAndTransmittance 0 = Some (1 / 25, 24 / 25)"
    using evaluator_computes_formulas [of 0]
    by (simp add: z b spec_r_def spec_t_def spec_R_def spec_T_def power2_eq_square)
  have second: "reflectionAndTransmissionCoefficient (pi - arctan (3 / 2)) = None
      \<and> reflectanceAndTransmittance (pi - arctan (3 / 2)) = None"
    using evaluator_computes_formulas [OF c r] by (simp add: spec_alpha_supplement b)
  show ?thesis
    using first second r c by (simp add: z b spec_alpha_supplement)
qed

subsection \<open>Conservation of energy in exact arithmetic\<close>

text \<open>
  Over the real numbers the two formulas of \<^verbatim>\<open>reflectanceAndTransmittance\<close> sum to exactly 1
  wherever \<open>alpha\<close> is a real number and \<open>alpha + beta\<close> is not zero. What the binary64
  values do is the subject of the last section.
\<close>

lemma reflectance_plus_transmittance_exact:
  assumes "cos theta_i \<noteq> 0" and "0 \<le> radicand n_1 n_2 theta_i"
    and "sqrt (radicand n_1 n_2 theta_i) / cos theta_i + n_2 / n_1 \<noteq> 0"
  shows "\<exists>R T. reflectanceAndTransmittance theta_i = Some (R, T) \<and> R + T = 1"
  using reflectance_Some [OF alphaAndBeta_Some [OF assms(1,2)] assms(3)]
    power_sum_identity [OF assms(3)]
  by simp

subsection \<open>Reflectance and reflection coefficient\<close>

lemma evaluator_defined_first_quadrant:
  assumes "0 \<le> theta_i" and "theta_i < pi / 2"
  shows "\<exists>alpha. alphaAndBeta theta_i = Some (alpha, n_2 / n_1) \<and> 0 < alpha + n_2 / n_1"
proof -
  have c: "0 < cos theta_i"
    using assms by (simp add: cos_gt_zero_pi)
  have r: "0 \<le> radicand n_1 n_2 theta_i"
    using radicand_lower [of theta_i] by simp
  have "0 \<le> sqrt (radicand n_1 n_2 theta_i) / cos theta_i"
    using c r by simp
  then have "0 < sqrt (radicand n_1 n_2 theta_i) / cos theta_i + n_2 / n_1"
    by (simp add: n_1_def n_2_def)
  then show ?thesis
    using alphaAndBeta_Some [of theta_i] c r by simp
qed

text \<open>
  Claim C3. At every angle of incidence strictly between 0 and \<open>pi / 2\<close> both functions
  return a pair, and the reflectance returned by \<^verbatim>\<open>reflectanceAndTransmittance\<close> is
  exactly the square of the reflection coefficient returned by
  \<^verbatim>\<open>reflectionAndTransmissionCoefficient\<close>.
\<close>

theorem reflectance_is_coefficient_squared:
  assumes "0 < theta_i" and "theta_i < pi / 2"
  shows "\<exists>r t R T. reflectionAndTransmissionCoefficient theta_i = Some (r, t)
           \<and> reflectanceAndTransmittance theta_i = Some (R, T) \<and> R = r\<^sup>2"
proof -
  obtain alpha where ab: "alphaAndBeta theta_i = Some (alpha, n_2 / n_1)"
    and nz: "alpha + n_2 / n_1 \<noteq> 0"
    using evaluator_defined_first_quadrant [of theta_i] assms by auto
  show ?thesis
    using coefficient_Some [OF ab nz] reflectance_Some [OF ab nz] by simp
qed

theorem reflectance_is_coefficient_squared_witness:
  "0 < pi / 3 \<and> pi / 3 < pi / 2
   \<and> (\<exists>r t R T. reflectionAndTransmissionCoefficient (pi / 3) = Some (r, t)
           \<and> reflectanceAndTransmittance (pi / 3) = Some (R, T) \<and> R = r\<^sup>2)"
  using reflectance_is_coefficient_squared [of "pi / 3"] by simp

subsection \<open>Brewster's angle\<close>

lemma alphaAndBeta_brewster: "alphaAndBeta (arctan (n_2 / n_1)) = Some (3 / 2, 3 / 2)"
proof -
  have s: "sqrt (1 + (3 / 2)\<^sup>2) = sqrt 13 / 2"
    by (rule real_sqrt_unique) (simp_all add: power2_eq_square)
  have r: "radicand n_1 n_2 (arctan (n_2 / n_1)) = 9 / 13"
    by (simp add: radicand_def n_1_def n_2_def sin_arctan s power2_eq_square)
  have q: "sqrt (9 / 13) = 3 / sqrt 13"
    by (simp add: real_sqrt_divide)
  have c: "cos (arctan (n_2 / n_1)) = 2 / sqrt 13"
    by (simp add: n_1_def n_2_def cos_arctan s)
  have "alphaAndBeta (arctan (n_2 / n_1)) = Some (sqrt (9 / 13) / (2 / sqrt 13), n_2 / n_1)"
    using alphaAndBeta_Some [of "arctan (n_2 / n_1)"] by (simp add: r c)
  then show ?thesis
    by (simp add: q n_1_def n_2_def)
qed

text \<open>
  Claim C4. At Brewster's angle \<open>arctan (n_2 / n_1)\<close> the reflection coefficient and the
  reflectance are both exactly zero over the reals (the transmission coefficient is
  \<open>2 / 3\<close> and the transmittance 1 there).
\<close>

theorem brewster_no_reflection:
  "reflectionAndTransmissionCoefficient (arctan (n_2 / n_1)) = Some (0, 2 / 3)
   \<and> reflectanceAndTransmittance (arctan (n_2 / n_1)) = Some (0, 1)"
  using coefficient_Some [OF alphaAndBeta_brewster] reflectance_Some [OF alphaAndBeta_brewster]
  by (simp add: power2_eq_square)

subsection \<open>Normal incidence\<close>



subsection \<open>The radicand\<close>

text \<open>
  Claim C7. For refractive indices \<open>0 < n1 < n2\<close>, and so for the program's \<open>n_1 = 1\<close> and
  \<open>n_2 = 3 / 2\<close>, the radicand \<open>1 - ((n1 / n2) * sin theta_i)\<^sup>2\<close> is not negative at any
  angle from 0 to 90 degrees: the square root in \<^verbatim>\<open>alphaAndBeta\<close> returns a real number.
\<close>

theorem radicand_nonnegative:
  assumes "0 \<le> theta_i" and "theta_i \<le> pi / 2"
  shows "(\<forall>n1 n2. 0 < n1 \<and> n1 < n2 \<longrightarrow> 0 \<le> radicand n1 n2 theta_i)
       \<and> 0 \<le> radicand n_1 n_2 theta_i
       \<and> np_sqrt (radicand n_1 n_2 theta_i) = Some (sqrt (radicand n_1 n_2 theta_i))"
proof -
  have gen: "0 \<le> radicand n1 n2 theta_i" if "0 < n1" and "n1 < n2" for n1 n2 :: real
  proof -
    have "\<bar>n1 / n2\<bar> \<le> 1"
      using that by simp
    moreover have "\<bar>sin theta_i\<bar> \<le> 1"
      by simp
    ultimately have "\<bar>n1 / n2\<bar> * \<bar>sin theta_i\<bar> \<le> 1 * 1"
      by (intro mult_mono) simp_all
    then have "\<bar>(n1 / n2) * sin theta_i\<bar> \<le> 1"
      by (simp add: abs_mult)
    then have "((n1 / n2) * sin theta_i)\<^sup>2 \<le> 1"
      by (simp add: abs_square_le_1)
    then show ?thesis
      by (simp add: radicand_def)
  qed
  have prog: "0 \<le> radicand n_1 n_2 theta_i"
    using gen [of n_1 n_2] by (simp add: n_1_def n_2_def)
  show ?thesis
    using gen prog by (simp add: np_sqrt_def)
qed

theorem radicand_nonnegative_witness:
  "(0::real) \<le> pi / 2 \<and> pi / 2 \<le> pi / 2 \<and> (0::real) < 1 \<and> (1::real) < 3 / 2
   \<and> 0 \<le> radicand 1 (3 / 2) (pi / 2) \<and> radicand 1 (3 / 2) (pi / 2) = 5 / 9
   \<and> 0 \<le> radicand n_1 n_2 (pi / 2)"
  using radicand_nonnegative [of "pi / 2"]
  by (simp add: radicand_def power2_eq_square)

section \<open>The sample grid\<close>

lemma linspace_grid: "linspace 0 100 100 = map (\<lambda>i. real i * (100 / 99)) [0..<100]"
proof -
  let ?y = "map (\<lambda>i. real i * (100 / 99)) [0..<100]"
  have "?y ! 99 = 100"
    by (simp only: nth_map nth_upt length_upt) simp
  then have "?y[99 := 100] = ?y"
    by (metis list_update_id)
  then show ?thesis
    by (simp add: linspace_def del: upt_rec_numeral)
qed

lemma length_theta_range: "length theta_range = 100"
  by (simp add: theta_range_def linspace_grid del: upt_rec_numeral)

lemma theta_range_nth:
  assumes "i < 100"
  shows "theta_range ! i = radians (real i * (100 / 99))"
  using assms by (simp add: theta_range_def linspace_grid del: upt_rec_numeral)

lemma theta_range_nth_pi:
  assumes "i < 100"
  shows "theta_range ! i = real i * (5 * pi / 891)"
  using assms by (simp add: theta_range_nth radians_def)

lemma theta_range_ascending:
  assumes "i < j" and "j < 100"
  shows "theta_range ! i < theta_range ! j"
  using assms by (simp add: theta_range_nth_pi)

lemma no_odd_multiple:
  fixes i :: int
  assumes "k < (100::nat)" and "odd i"
  shows "int k * 10 \<noteq> i * 891"
proof
  assume eq: "int k * 10 = i * 891"
  have "0 \<le> i * 891" "i * 891 < 1000"
    using assms(1) eq by linarith+
  then have "i = 0 \<or> i = 1"
    by linarith
  with assms(2) have "i = 1"
    by auto
  with eq have "int k * 10 = 891"
    by simp
  then have "(10::int) dvd 891"
    by (metis dvd_triv_right)
  then show False
    by simp
qed

lemma grid_cos_nonzero:
  assumes "k < 100"
  shows "cos (real k * (5 * pi / 891)) \<noteq> 0"
proof
  assume "cos (real k * (5 * pi / 891)) = 0"
  then obtain i :: int where i: "odd i" and eq: "real k * (5 * pi / 891) = of_int i * (pi / 2)"
    using cos_zero_iff_int by blast
  from eq have "real k * 10 * pi = of_int i * 891 * pi"
    by (simp add: field_simps)
  then have "real k * 10 = of_int i * 891"
    by simp
  then have "real_of_int (int k * 10) = real_of_int (i * 891)"
    by simp
  then have "int k * 10 = i * 891"
    by (simp only: of_int_eq_iff)
  with no_odd_multiple [OF assms i] show False
    by simp
qed

lemma evaluator_defined_beyond:
  assumes "pi / 2 < theta_i" and "theta_i \<le> 5 * pi / 9"
  shows "\<exists>alpha. alphaAndBeta theta_i = Some (alpha, n_2 / n_1) \<and> alpha + n_2 / n_1 < 0"
proof -
  have cs: "cos theta_i = - sin (theta_i - pi / 2)"
    by (simp add: sin_diff)
  have "theta_i - pi / 2 < pi"
    using assms(2) pi_gt_zero by linarith
  then have "0 < sin (theta_i - pi / 2)"
    using assms(1) by (intro sin_gt_zero) simp_all
  then have c: "cos theta_i < 0"
    using cs by linarith
  from cs have "\<bar>cos theta_i\<bar> \<le> \<bar>theta_i - pi / 2\<bar>"
    using abs_sin_x_le_abs_x [of "theta_i - pi / 2"] by simp
  also have "\<dots> \<le> pi / 18"
    using assms by linarith
  also have "\<dots> < 2 / 9"
    using pi_less_4 by linarith
  finally have cb: "- cos theta_i < 2 / 9"
    using c by linarith
  have r: "5 / 9 \<le> radicand n_1 n_2 theta_i"
    by (rule radicand_lower)
  have "sqrt ((7 / 10)\<^sup>2) \<le> sqrt (radicand n_1 n_2 theta_i)"
    using r by (intro real_sqrt_le_mono) (simp add: power2_eq_square)
  then have s: "7 / 10 \<le> sqrt (radicand n_1 n_2 theta_i)"
    by simp
  have "3 / 2 * (- cos theta_i) < sqrt (radicand n_1 n_2 theta_i)"
    using cb s by linarith
  then have "sqrt (radicand n_1 n_2 theta_i) / cos theta_i < - (3 / 2)"
    using c by (simp add: field_simps)
  then have "sqrt (radicand n_1 n_2 theta_i) / cos theta_i + n_2 / n_1 < 0"
    by (simp add: n_1_def n_2_def)
  moreover have "0 \<le> radicand n_1 n_2 theta_i"
    using r by linarith
  ultimately show ?thesis
    using alphaAndBeta_Some [of theta_i] c by simp
qed

lemma evaluator_defined_on_grid:
  assumes "i < 100"
  shows "\<exists>alpha. alphaAndBeta (theta_range ! i) = Some (alpha, n_2 / n_1)
           \<and> alpha + n_2 / n_1 \<noteq> 0"
proof -
  define t where "t = theta_range ! i"
  have t: "t = real i * (5 * pi / 891)"
    unfolding t_def using assms by (rule theta_range_nth_pi)
  have nz: "cos t \<noteq> 0"
    using grid_cos_nonzero [OF assms] by (simp add: t)
  have ne: "t \<noteq> pi / 2"
  proof
    assume "t = pi / 2"
    with nz show False by simp
  qed
  have lo: "0 \<le> t"
    by (simp add: t)
  have "real i \<le> 99"
    using assms by simp
  then have "real i * (5 * pi / 891) \<le> 99 * (5 * pi / 891)"
    by (intro mult_right_mono) simp_all
  then have hi: "t \<le> 5 * pi / 9"
    by (simp add: t)
  from ne lo hi consider "0 \<le> t \<and> t < pi / 2" | "pi / 2 < t \<and> t \<le> 5 * pi / 9"
    by linarith
  then have "\<exists>alpha. alphaAndBeta t = Some (alpha, n_2 / n_1) \<and> alpha + n_2 / n_1 \<noteq> 0"
  proof cases
    case 1
    then show ?thesis
      using evaluator_defined_first_quadrant [of t] by auto
  next
    case 2
    then show ?thesis
      using evaluator_defined_beyond [of t] by auto
  qed
  then show ?thesis
    by (simp add: t_def)
qed

lemma degrees_radians: "degrees (radians x) = x"
  by (simp add: degrees_def radians_def)

lemma sequences_nth:
  assumes "i < 100"
  shows "reflection_coefficient ! i =
           map_option fst (reflectionAndTransmissionCoefficient (theta_range ! i))"
    and "transmission_coefficient ! i =
           map_option snd (reflectionAndTransmissionCoefficient (theta_range ! i))"
    and "reflectance ! i = map_option fst (reflectanceAndTransmittance (theta_range ! i))"
    and "transmittance ! i = map_option snd (reflectanceAndTransmittance (theta_range ! i))"
  using assms
  by (simp_all add: reflection_coefficient_def transmission_coefficient_def reflectance_def
      transmittance_def length_theta_range)

lemma sequences_length:
  "length reflection_coefficient = 100" "length transmission_coefficient = 100"
  "length reflectance = 100" "length transmittance = 100"
  by (simp_all add: reflection_coefficient_def transmission_coefficient_def reflectance_def
      transmittance_def length_theta_range)

lemma sequences_defined:
  assumes "i < 100"
  shows "\<exists>r t R T. reflection_coefficient ! i = Some r \<and> transmission_coefficient ! i = Some t
           \<and> reflectance ! i = Some R \<and> transmittance ! i = Some T"
proof -
  obtain alpha where ab: "alphaAndBeta (theta_range ! i) = Some (alpha, n_2 / n_1)"
    and nz: "alpha + n_2 / n_1 \<noteq> 0"
    using evaluator_defined_on_grid [OF assms] by auto
  show ?thesis
    using coefficient_Some [OF ab nz] reflectance_Some [OF ab nz]
    by (simp add: sequences_nth [OF assms])
qed

text \<open>
  Claim C6. The grid \<^verbatim>\<open>theta_range\<close> has exactly 100 angles; the angle at index \<open>i\<close> is
  \<open>i * 100 / 99\<close> degrees converted to radians, so the angles are evenly spaced, the first is
  0 degrees and the last 100 degrees, and they ascend strictly. Each of the four derived
  sequences has length 100, and its element at index \<open>i\<close> is the corresponding component of
  the evaluator at the grid angle of index \<open>i\<close>.
\<close>

theorem sample_grid_and_sequences:
  "length theta_range = 100
   \<and> (\<forall>i<100. theta_range ! i = radians (real i * (100 / 99)))
   \<and> degrees (theta_range ! 0) = 0 \<and> degrees (theta_range ! 99) = 100
   \<and> (\<forall>i j. i < j \<and> j < 100 \<longrightarrow> theta_range ! i < theta_range ! j)
   \<and> length reflection_coefficient = 100 \<and> length transmission_coefficient = 100
   \<and> length reflectance = 100 \<and> length transmittance = 100
   \<and> (\<forall>i<100.
         reflection_coefficient ! i =
           map_option fst (reflectionAndTransmissionCoefficient (theta_range ! i))
       \<and> transmission_coefficient ! i =
           map_option snd (reflectionAndTransmissionCoefficient (theta_range ! i))
       \<and> reflectance ! i = map_option fst (reflectanceAndTransmittance (theta_range ! i))
       \<and> transmittance ! i = map_option snd (reflectanceAndTransmittance (theta_range ! i)))"
proof -
  have first: "degrees (theta_range ! 0) = 0"
    by (simp add: theta_range_nth degrees_radians)
  have final: "degrees (theta_range ! 99) = 100"
    by (simp add: theta_range_nth degrees_radians)
  show ?thesis
    using length_theta_range theta_range_nth first final theta_range_ascending
      sequences_length sequences_nth
    by blast
qed

theorem sample_grid_and_sequences_witness:
  "(0::nat) < 99 \<and> (99::nat) < 100
   \<and> theta_range ! 0 = 0 \<and> theta_range ! 99 = radians 100
   \<and> theta_range ! 0 < theta_range ! 99
   \<and> reflection_coefficient ! 0 = Some (- 1 / 5) \<and> transmission_coefficient ! 0 = Some (4 / 5)
   \<and> reflectance ! 0 = Some (1 / 25) \<and> transmittance ! 0 = Some (24 / 25)"
proof -
  note g = sample_grid_and_sequences
  from g have n: "\<forall>i<100. theta_range ! i = radians (real i * (100 / 99))"
    by (elim conjE)
  from g have a: "\<forall>i j. i < j \<and> j < 100 \<longrightarrow> theta_range ! i < theta_range ! j"
    by (elim conjE)
  from g have s: "\<forall>i<100.
         reflection_coefficient ! i =
           map_option fst (reflectionAndTransmissionCoefficient (theta_range ! i))
       \<and> transmission_coefficient ! i =
           map_option snd (reflectionAndTransmissionCoefficient (theta_range ! i))
       \<and> reflectance ! i = map_option fst (reflectanceAndTransmittance (theta_range ! i))
       \<and> transmittance ! i = map_option snd (reflectanceAndTransmittance (theta_range ! i))"
    by (elim conjE)
  have z: "theta_range ! 0 = 0"
    using n [rule_format, of 0] by (simp add: radians_def)
  have l: "theta_range ! 99 = radians 100"
    using n [rule_format, of 99] by simp
  have o: "theta_range ! 0 < theta_range ! 99"
    using a [rule_format, of 0 99] by simp
  have c: "reflectionAndTransmissionCoefficient 0 = Some (- 1 / 5, 4 / 5)"
    using coefficient_Some [OF alphaAndBeta_zero] by simp
  have r: "reflectanceAndTransmittance 0 = Some (1 / 25, 24 / 25)"
    using reflectance_Some [OF alphaAndBeta_zero] by (simp add: power2_eq_square)
  show ?thesis
    using s [rule_format, of 0] z l o by (simp add: c r)
qed

text \<open>
  Claim C10. Evaluation is total over the whole grid. The radicand is at least \<open>5 / 9\<close> at
  every real angle; no grid angle is 90 degrees, and the cosine is not zero at any of them;
  and every element of the four derived sequences is a real number, the samples beyond
  90 degrees included: no division by zero (by the cosine or by \<open>alpha + beta\<close>) and no
  square root of a negative number occurs.
\<close>

theorem evaluation_total_on_grid:
  "(\<forall>theta. 5 / 9 \<le> radicand n_1 n_2 theta)
   \<and> (\<forall>i<100. degrees (theta_range ! i) \<noteq> 90 \<and> cos (theta_range ! i) \<noteq> 0)
   \<and> (\<forall>i<100. \<exists>r t R T.
         reflection_coefficient ! i = Some r \<and> transmission_coefficient ! i = Some t
       \<and> reflectance ! i = Some R \<and> transmittance ! i = Some T)"
proof -
  have c: "cos (theta_range ! i) \<noteq> 0" if "i < 100" for i
    using grid_cos_nonzero [OF that] by (simp add: theta_range_nth_pi [OF that])
  have d: "degrees (theta_range ! i) \<noteq> 90" if "i < 100" for i
  proof
    assume "degrees (theta_range ! i) = 90"
    then have "theta_range ! i = pi / 2"
      by (simp add: degrees_def field_simps)
    with c [OF that] show False
      by simp
  qed
  show ?thesis
    using radicand_lower c d sequences_defined by blast
qed

theorem evaluation_total_on_grid_witness:
  "(99::nat) < 100 \<and> theta_range ! 99 = radians 100 \<and> cos (radians 100) \<noteq> 0
   \<and> (\<exists>r t R T.
         reflection_coefficient ! 99 = Some r \<and> transmission_coefficient ! 99 = Some t
       \<and> reflectance ! 99 = Some R \<and> transmittance ! 99 = Some T)"
proof -
  note g = evaluation_total_on_grid
  from g have c: "\<forall>i<100. degrees (theta_range ! i) \<noteq> 90 \<and> cos (theta_range ! i) \<noteq> 0"
    by (elim conjE)
  from g have s: "\<forall>i<100. \<exists>r t R T.
         reflection_coefficient ! i = Some r \<and> transmission_coefficient ! i = Some t
       \<and> reflectance ! i = Some R \<and> transmittance ! i = Some T"
    by (elim conjE)
  have l: "theta_range ! 99 = radians 100"
    by (simp add: theta_range_nth)
  show ?thesis
    using c [rule_format, of 99] s [rule_format, of 99] by (simp add: l)
qed

section \<open>Brewster's angle in degrees and the ticks\<close>

lemma arctan_lower:
  assumes "0 \<le> x"
  shows "x - x ^ 3 / 3 \<le> arctan x"
proof -
  let ?f = "\<lambda>t::real. arctan t - t + t ^ 3 / 3"
  have "?f 0 \<le> ?f x"
  proof (rule DERIV_nonneg_imp_nondecreasing [OF assms])
    fix t :: real
    have pos: "0 < 1 + t\<^sup>2"
      by (simp add: add_pos_nonneg)
    have d: "DERIV ?f t :> inverse (1 + t\<^sup>2) - 1 + t\<^sup>2"
      by (auto intro!: derivative_eq_intros)
    have "inverse (1 + t\<^sup>2) - 1 + t\<^sup>2 = t ^ 4 / (1 + t\<^sup>2)"
      using pos by (simp add: field_simps power2_eq_square power4_eq_xxxx)
    moreover have "0 \<le> t ^ 4 / (1 + t\<^sup>2)"
      using pos by (intro divide_nonneg_pos) simp_all
    ultimately have "0 \<le> inverse (1 + t\<^sup>2) - 1 + t\<^sup>2"
      by simp
    with d show "\<exists>y. DERIV ?f t :> y \<and> 0 \<le> y"
      by blast
  qed
  then show ?thesis
    by simp
qed

lemma arctan_upper:
  assumes "0 \<le> x"
  shows "arctan x \<le> x - x ^ 3 / 3 + x ^ 5 / 5"
proof -
  let ?f = "\<lambda>t::real. t - t ^ 3 / 3 + t ^ 5 / 5 - arctan t"
  have "?f 0 \<le> ?f x"
  proof (rule DERIV_nonneg_imp_nondecreasing [OF assms])
    fix t :: real
    have pos: "0 < 1 + t\<^sup>2"
      by (simp add: add_pos_nonneg)
    have d: "DERIV ?f t :> 1 - t\<^sup>2 + t ^ 4 - inverse (1 + t\<^sup>2)"
      by (auto intro!: derivative_eq_intros)
    have "1 - t\<^sup>2 + t ^ 4 - inverse (1 + t\<^sup>2) = t ^ 6 / (1 + t\<^sup>2)"
      using pos by (simp add: field_simps power2_eq_square power_numeral_reduce)
    moreover have "0 \<le> t ^ 6 / (1 + t\<^sup>2)"
      using pos by (intro divide_nonneg_pos) simp_all
    ultimately have "0 \<le> 1 - t\<^sup>2 + t ^ 4 - inverse (1 + t\<^sup>2)"
      by simp
    with d show "\<exists>y. DERIV ?f t :> y \<and> 0 \<le> y"
      by blast
  qed
  then show ?thesis
    by simp
qed

lemma arctan_fifth_bounds:
  "74 / 375 \<le> arctan (1 / 5)" "arctan (1 / 5) \<le> 9253 / 46875"
proof -
  show "74 / 375 \<le> arctan (1 / 5)"
    using arctan_lower [of "1 / 5"] by (simp add: power_divide)
  show "arctan (1 / 5) \<le> 9253 / 46875"
    using arctan_upper [of "1 / 5"] by (simp add: power_divide)
qed

lemma arctan_239_bounds:
  "171362 / 40955757 \<le> arctan (1 / 239)" "arctan (1 / 239) \<le> 1 / 239"
proof -
  show "171362 / 40955757 \<le> arctan (1 / 239)"
    using arctan_lower [of "1 / 239"] by (simp add: power_divide)
  have "arctan (1 / 239) \<le> arctan (1 / 239) + (1 / 239) ^ 3 / 3 - (1 / 239) ^ 5 / 5"
    by (simp add: power_divide)
  also have "\<dots> \<le> 1 / 239"
    using arctan_upper [of "1 / 239"] by simp
  finally show "arctan (1 / 239) \<le> 1 / 239" .
qed

lemma arctan_brewster: "arctan (n_2 / n_1) = pi / 4 + arctan (1 / 5)"
proof -
  have "arctan 1 + arctan (1 / 5) = arctan ((1 + 1 / 5) / (1 - 1 * (1 / 5)))"
    by (rule arctan_add) simp_all
  then show ?thesis
    by (simp add: arctan_one n_1_def n_2_def)
qed

lemma theta_brewster_bounds: "56.3095 < theta_brewster" "theta_brewster < 56.3105"
proof -
  define a where "a = arctan (1 / 5)"
  define b where "b = arctan (1 / 239)"
  have p: "pi = 16 * a - 4 * b"
    using machin by (simp add: a_def b_def)
  have a: "74 / 375 \<le> a" "a \<le> 9253 / 46875"
    using arctan_fifth_bounds by (simp_all add: a_def)
  have b: "171362 / 40955757 \<le> b" "b \<le> 1 / 239"
    using arctan_239_bounds by (simp_all add: b_def)
  have t: "theta_brewster = 45 + 180 * a / pi"
    by (simp add: theta_brewster_def degrees_def arctan_brewster a_def field_simps)
  have "11.3095 * pi < 180 * a"
    using a b by (simp add: p)
  then have "11.3095 < 180 * a / pi"
    by (simp add: pos_less_divide_eq)
  then show "56.3095 < theta_brewster"
    by (simp add: t)
  have "180 * a < 11.3105 * pi"
    using a b by (simp add: p)
  then have "180 * a / pi < 11.3105"
    by (simp add: pos_divide_less_eq)
  then show "theta_brewster < 56.3105"
    by (simp add: t)
qed

lemma rint_unique:
  assumes "of_int n - 1 / 2 < y" and "y < of_int n + 1 / 2"
  shows "rint y = of_int n"
proof -
  have "\<lfloor>y\<rfloor> = n - 1 \<or> \<lfloor>y\<rfloor> = n"
    using assms by linarith
  then show ?thesis
  proof
    assume f: "\<lfloor>y\<rfloor> = n - 1"
    then have "1 / 2 < y - of_int (n - 1)"
      using assms by simp
    then show ?thesis
      by (simp add: rint_def Let_def f)
  next
    assume f: "\<lfloor>y\<rfloor> = n"
    then have "y - of_int n < 1 / 2"
      using assms by simp
    then show ?thesis
      by (simp add: rint_def Let_def f)
  qed
qed

lemma round_theta_brewster: "np_round theta_brewster 3 = 56.31"
proof -
  have "rint (theta_brewster * 10 ^ 3) = of_int 56310"
    using theta_brewster_bounds by (intro rint_unique) simp_all
  then show ?thesis
    by (simp add: np_round_def)
qed

lemma arange_ticks: "arange 0 90 10 = [0, 10, 20, 30, 40, 50, 60, 70, 80]"
  by (simp add: arange_def upt_conv_Cons)

text \<open>
  Claim C8. The scalar \<^verbatim>\<open>theta_brewster\<close> is \<open>arctan 1.5\<close> converted to degrees, and it is
  56.31 degrees to within half a thousandth of a degree.
\<close>

theorem brewster_angle_degrees:
  "theta_brewster = arctan (3 / 2) * 180 / pi \<and> \<bar>theta_brewster - 56.31\<bar> < 0.0005"
proof -
  have "theta_brewster = arctan (3 / 2) * 180 / pi"
    by (simp add: theta_brewster_def degrees_def n_1_def n_2_def)
  moreover have "theta_brewster - 56.31 < 0.0005" "- (theta_brewster - 56.31) < 0.0005"
    using theta_brewster_bounds by simp_all
  then have "\<bar>theta_brewster - 56.31\<bar> < 0.0005"
    by (intro abs_less_iff [THEN iffD2] conjI)
  ultimately show ?thesis
    by simp
qed

text \<open>
  Claim C9. The ticks of the x-axis are the multiples of 10 degrees from 0 to 80 together
  with Brewster's angle rounded to three decimals, without the ticks at 50 and 60 degrees:
  the ascending sequence 0, 10, 20, 30, 40, 56.31, 70, 80.
\<close>

theorem ticks_x_value: "ticks_x = [0, 10, 20, 30, 40, 56.31, 70, 80]"
  by (simp add: ticks_x_def setdiff1d_def arange_ticks round_theta_brewster)

section \<open>Reflectance and transmittance in binary64\<close>

lemma rint_error: "\<bar>rint y - y\<bar> \<le> 1 / 2"
proof -
  have "of_int \<lfloor>y\<rfloor> \<le> y" "y < of_int \<lfloor>y\<rfloor> + 1"
    by linarith+
  then show ?thesis
    by (auto simp add: rint_def Let_def)
qed

lemma fl_zero: "fl 0 = 0"
  by (simp add: fl_def)

lemma fl_eq:
  fixes e n :: int
  assumes "2 powr of_int e \<le> \<bar>x\<bar>" and "\<bar>x\<bar> < 2 powr (of_int e + 1)"
    and "of_int n - 1 / 2 < x / 2 powr (of_int e - 52)"
    and "x / 2 powr (of_int e - 52) < of_int n + 1 / 2"
  shows "fl x = of_int n * 2 powr (of_int e - 52)"
proof -
  have "0 < 2 powr real_of_int e"
    by simp
  then have nz: "x \<noteq> 0"
    using assms(1) by auto
  then have "\<lfloor>log 2 \<bar>x\<bar>\<rfloor> = e"
    using assms(1,2) by (simp add: floor_log_eq_powr_iff)
  moreover have "rint (x / 2 powr (of_int e - 52)) = of_int n"
    using assms(3,4) by (rule rint_unique)
  ultimately show ?thesis
    using nz by (simp add: fl_def)
qed

lemma fl_fifth: "fl (- 1 / 5) = - 7205759403792794 / 2 ^ 55"
  using fl_eq [of "- 3" "- 1 / 5" "- 7205759403792794"]
  by (simp add: powr_neg_numeral powr_minus)

lemma fl_one: "fl 1 = 1"
  using fl_eq [of 0 1 4503599627370496] by (simp add: powr_neg_numeral powr_minus)

lemma fl_three_halves: "fl (3 / 2) = 3 / 2"
  using fl_eq [of 0 "3 / 2" 6755399441055744] by (simp add: powr_neg_numeral powr_minus)

lemma fl_minus_half: "fl (- 1 / 2) = - 1 / 2"
  using fl_eq [of "- 1" "- 1 / 2" "- 4503599627370496"]
  by (simp add: powr_neg_numeral powr_minus)

lemma fl_five_halves: "fl (5 / 2) = 5 / 2"
  using fl_eq [of 1 "5 / 2" 5629499534213120] by (simp add: powr_neg_numeral powr_minus)

lemma fl_four_fifths: "fl (4 / 5) = 7205759403792794 / 2 ^ 53"
  using fl_eq [of "- 1" "4 / 5" 7205759403792794] by (simp add: powr_neg_numeral powr_minus)

lemma fl_reflectance_zero:
  "fl ((- 7205759403792794 / 2 ^ 55) * (- 7205759403792794 / 2 ^ 55))
     = 5764607523034236 / 2 ^ 57"
  using fl_eq [of "- 5" "(- 7205759403792794 / 2 ^ 55) * (- 7205759403792794 / 2 ^ 55)"
      5764607523034236]
  by (simp add: powr_neg_numeral powr_minus)

lemma fl_transmission_squared:
  "fl ((7205759403792794 / 2 ^ 53) * (7205759403792794 / 2 ^ 53))
     = 5764607523034236 / 2 ^ 53"
  using fl_eq [of "- 1" "(7205759403792794 / 2 ^ 53) * (7205759403792794 / 2 ^ 53)"
      5764607523034236]
  by (simp add: powr_neg_numeral powr_minus)

lemma fl_transmittance_zero:
  "fl (3 / 2 * (5764607523034236 / 2 ^ 53)) = 8646911284551354 / 2 ^ 53"
  using fl_eq [of "- 1" "3 / 2 * (5764607523034236 / 2 ^ 53)" 8646911284551354]
  by (simp add: powr_neg_numeral powr_minus)

lemma alphaAndBeta_f64_zero: "alphaAndBeta_f64 0 = Some (1, 3 / 2)"
proof -
  have "fl (n_2 / n_1) = 3 / 2"
    by (simp add: n_1_def n_2_def fl_three_halves)
  then show ?thesis
    by (simp add: alphaAndBeta_f64_def f64_sqrt_def f64_divide_def f64_square_def f64_sin_def
        f64_cos_def fl_zero fl_one)
qed

lemma reflectance_f64_Some:
  assumes "alphaAndBeta_f64 theta_i = Some (alpha, beta)" and "fl (alpha + beta) \<noteq> 0"
  shows "reflectanceAndTransmittance_f64 theta_i =
           Some (f64_square (fl (fl (alpha - beta) / fl (alpha + beta))),
                 fl (fl (alpha * beta) * f64_square (fl (2 / fl (alpha + beta)))))"
  using assms by (simp add: reflectanceAndTransmittance_f64_def f64_divide_def)

lemma reflectance_f64_zero:
  "reflectanceAndTransmittance_f64 0
     = Some (5764607523034236 / 2 ^ 57, 8646911284551354 / 2 ^ 53)"
proof -
  have d: "fl (1 - 3 / 2) = - 1 / 2"
    using fl_minus_half by simp
  have s: "fl (1 + 3 / 2) = 5 / 2"
    using fl_five_halves by simp
  have q: "fl (- 1 / 2 / (5 / 2)) = - 7205759403792794 / 2 ^ 55"
    using fl_fifth by simp
  have p: "fl (2 / (5 / 2)) = 7205759403792794 / 2 ^ 53"
    using fl_four_fifths by simp
  have ab: "fl (1 * (3 / 2)) = 3 / 2"
    using fl_three_halves by simp
  have nz: "fl (1 + 3 / 2) \<noteq> 0"
    using s by simp
  show ?thesis
    by (simp only: reflectance_f64_Some [OF alphaAndBeta_f64_zero nz] f64_square_def d s q p ab
        fl_reflectance_zero fl_transmission_squared fl_transmittance_zero)
qed

text \<open>
  Claim C2 says that the reflectance and the transmittance returned by
  \<^verbatim>\<open>reflectanceAndTransmittance\<close> sum to exactly 1. The binary64 values do not: at
  \<open>theta_i = 0\<close>, where \<open>alpha = 1\<close> and \<open>beta = 1.5\<close>, the function returns
  \<open>1441151880758559 / 2\<^sup>5\<^sup>5\<close> (printed 0.04000000000000001) and
  \<open>4323455642275677 / 2\<^sup>5\<^sup>2\<close> (printed 0.9600000000000002), and their sum is not 1.
\<close>

theorem reflectance_plus_transmittance_counterexample:
  "cos (0::real) \<noteq> 0 \<and> 0 \<le> radicand n_1 n_2 0
   \<and> alphaAndBeta_f64 0 = Some (1, 3 / 2) \<and> (1::real) + 3 / 2 \<noteq> 0
   \<and> reflectanceAndTransmittance_f64 0
       = Some (1441151880758559 / 36028797018963968, 4323455642275677 / 4503599627370496)
   \<and> 1441151880758559 / 36028797018963968 + 4323455642275677 / 4503599627370496 \<noteq> (1::real)"
  by (simp add: reflectance_f64_zero alphaAndBeta_f64_zero radicand_def)

lemma unit_w_ge_one: "1 \<le> unit_w"
  by (simp add: unit_w_def)

lemma unit_w_power_ge_one: "1 \<le> unit_w ^ n"
  using unit_w_ge_one by (rule one_le_power)

lemma unit_w_power_pos: "0 < unit_w ^ n"
  using unit_w_power_ge_one [of n] by linarith

lemma rel_err_factor_pos:
  assumes "inverse (unit_w ^ n) \<le> g"
  shows "0 < g"
proof -
  have "0 < inverse (unit_w ^ n)"
    using unit_w_power_pos [of n] by simp
  with assms show ?thesis
    by linarith
qed

lemma rel_err_refl: "rel_err 0 x x"
  unfolding rel_err_def by (intro exI [of _ 1]) simp

lemma rel_err_mult:
  assumes "rel_err m x y" and "rel_err n x' y'"
  shows "rel_err (m + n) (x * x') (y * y')"
proof -
  obtain g where g: "inverse (unit_w ^ m) \<le> g" "g \<le> unit_w ^ m" "x = y * g"
    using assms(1) unfolding rel_err_def by blast
  obtain h where h: "inverse (unit_w ^ n) \<le> h" "h \<le> unit_w ^ n" "x' = y' * h"
    using assms(2) unfolding rel_err_def by blast
  have gp: "0 < g" and hp: "0 < h"
    using g(1) h(1) by (auto intro: rel_err_factor_pos)
  have "inverse (unit_w ^ m) * inverse (unit_w ^ n) \<le> g * h"
    using g(1) h(1) gp unit_w_power_pos [of n]
    by (intro mult_mono) simp_all
  then have lo: "inverse (unit_w ^ (m + n)) \<le> g * h"
    by (simp add: power_add)
  have "g * h \<le> unit_w ^ m * unit_w ^ n"
    using g(2) h(2) gp hp by (intro mult_mono) simp_all
  then have hi: "g * h \<le> unit_w ^ (m + n)"
    by (simp add: power_add)
  have "x * x' = (y * y') * (g * h)"
    by (simp add: g(3) h(3))
  with lo hi show ?thesis
    unfolding rel_err_def by blast
qed

lemma rel_err_inverse:
  assumes "rel_err n x y"
  shows "rel_err n (inverse x) (inverse y)"
proof -
  obtain g where g: "inverse (unit_w ^ n) \<le> g" "g \<le> unit_w ^ n" "x = y * g"
    using assms unfolding rel_err_def by blast
  have gp: "0 < g"
    using g(1) by (rule rel_err_factor_pos)
  have lo: "inverse (unit_w ^ n) \<le> inverse g"
    using g(2) gp by (simp add: le_imp_inverse_le)
  have "inverse g \<le> inverse (inverse (unit_w ^ n))"
    using g(1) unit_w_power_pos [of n] by (intro le_imp_inverse_le) simp_all
  then have hi: "inverse g \<le> unit_w ^ n"
    by simp
  have "inverse x = inverse y * inverse g"
    by (simp add: g(3))
  with lo hi show ?thesis
    unfolding rel_err_def by blast
qed

lemma rel_err_divide:
  assumes "rel_err m x y" and "rel_err n x' y'"
  shows "rel_err (m + n) (x / x') (y / y')"
  using rel_err_mult [OF assms(1) rel_err_inverse [OF assms(2)]]
  by (simp add: divide_inverse)

lemma fl_rel: "rel_err 1 (fl x) x"
proof (cases "x = 0")
  case True
  have "inverse (unit_w ^ 1) \<le> 1" "1 \<le> unit_w ^ 1"
    using unit_w_ge_one by (simp_all add: inverse_le_1_iff)
  then show ?thesis
    unfolding rel_err_def using True by (intro exI [of _ 1]) (simp add: fl_zero)
next
  case False
  define e where "e = \<lfloor>log 2 \<bar>x\<bar>\<rfloor>"
  define U :: real where "U = 2 powr (of_int e - 52)"
  define y where "y = x / U"
  have Up: "0 < U"
    by (simp add: U_def)
  have fx: "fl x = rint y * U"
    using False by (simp add: fl_def Let_def e_def U_def y_def)
  have "2 powr of_int e \<le> \<bar>x\<bar>"
    using False floor_log_eq_powr_iff [of "\<bar>x\<bar>" 2 e] by (simp add: e_def)
  moreover have "U * 2 ^ 52 = 2 powr of_int e"
    by (simp add: U_def powr_diff)
  ultimately have "U * 2 ^ 52 \<le> \<bar>x\<bar>"
    by simp
  then have ylo: "2 ^ 52 \<le> \<bar>y\<bar>"
    using Up by (simp add: y_def pos_le_divide_eq mult.commute)
  then have ynz: "y \<noteq> 0"
    by auto
  define g where "g = rint y / y"
  have xg: "fl x = x * g"
    using ynz Up by (simp add: fx g_def y_def)
  have "\<bar>rint y - y\<bar> \<le> 1 / 2"
    by (rule rint_error)
  also have "\<dots> \<le> \<bar>y\<bar> / 2 ^ 53"
    using ylo by simp
  finally have "\<bar>rint y - y\<bar> / \<bar>y\<bar> \<le> 1 / 2 ^ 53"
    using ynz by (simp add: pos_divide_le_eq mult.commute)
  moreover have "g - 1 = (rint y - y) / y"
    using ynz by (simp add: g_def diff_divide_distrib)
  ultimately have "\<bar>g - 1\<bar> \<le> 1 / 2 ^ 53"
    by simp
  then have "1 - 1 / 2 ^ 53 \<le> g" "g \<le> 1 + 1 / 2 ^ 53"
    by linarith+
  moreover have "inverse (unit_w ^ 1) = 1 - 1 / 2 ^ 53" "1 + 1 / 2 ^ 53 \<le> unit_w ^ 1"
    by (simp_all add: unit_w_def)
  ultimately have "inverse (unit_w ^ 1) \<le> g" "g \<le> unit_w ^ 1"
    by linarith+
  with xg show ?thesis
    unfolding rel_err_def by blast
qed

lemma rel_err_trans:
  assumes "rel_err m x y" and "rel_err n y z"
  shows "rel_err (m + n) x z"
proof -
  obtain g where g: "inverse (unit_w ^ m) \<le> g" "g \<le> unit_w ^ m" "x = y * g"
    using assms(1) unfolding rel_err_def by blast
  obtain h where h: "inverse (unit_w ^ n) \<le> h" "h \<le> unit_w ^ n" "y = z * h"
    using assms(2) unfolding rel_err_def by blast
  have gp: "0 < g" and hp: "0 < h"
    using g(1) h(1) by (auto intro: rel_err_factor_pos)
  have "inverse (unit_w ^ m) * inverse (unit_w ^ n) \<le> g * h"
    using g(1) h(1) gp unit_w_power_pos [of n]
    by (intro mult_mono) simp_all
  then have lo: "inverse (unit_w ^ (m + n)) \<le> g * h"
    by (simp add: power_add)
  have "g * h \<le> unit_w ^ m * unit_w ^ n"
    using g(2) h(2) gp hp by (intro mult_mono) simp_all
  then have hi: "g * h \<le> unit_w ^ (m + n)"
    by (simp add: power_add)
  have "x = z * (g * h)"
    by (simp add: g(3) h(3))
  with lo hi show ?thesis
    unfolding rel_err_def by blast
qed

lemma rel_err_fl:
  assumes "rel_err n x y"
  shows "rel_err (Suc n) (fl x) y"
  using rel_err_trans [OF fl_rel assms] by simp

lemma rel_err_bound:
  assumes "rel_err n x y"
  shows "\<bar>x - y\<bar> \<le> (unit_w ^ n - 1) * \<bar>x\<bar>"
proof -
  obtain g where g: "inverse (unit_w ^ n) \<le> g" "g \<le> unit_w ^ n" "x = y * g"
    using assms unfolding rel_err_def by blast
  have gp: "0 < g"
    using g(1) by (rule rel_err_factor_pos)
  define W where "W = unit_w ^ n"
  have W: "1 \<le> W"
    unfolding W_def by (rule unit_w_power_ge_one)
  have lo: "inverse W \<le> inverse g"
    using g(2) gp by (simp add: W_def le_imp_inverse_le)
  have "inverse g \<le> inverse (inverse W)"
    using g(1) W by (intro le_imp_inverse_le) (simp_all add: W_def)
  then have hi: "inverse g \<le> W"
    by simp
  have "(W - 1) * inverse W \<le> (W - 1) * 1"
    using W by (intro mult_left_mono) (simp_all add: inverse_le_1_iff)
  then have "1 - inverse W \<le> W - 1"
    using W by (simp add: algebra_simps)
  then have k: "\<bar>1 - inverse g\<bar> \<le> W - 1"
    using lo hi by linarith
  have "x - y = x * (1 - inverse g)"
    using gp by (simp add: g(3) algebra_simps)
  then have "\<bar>x - y\<bar> = \<bar>x\<bar> * \<bar>1 - inverse g\<bar>"
    by (simp add: abs_mult)
  also have "\<dots> \<le> \<bar>x\<bar> * (W - 1)"
    using k by (intro mult_left_mono) simp_all
  finally show ?thesis
    by (simp add: W_def mult.commute)
qed

lemma unit_w_seven: "unit_w ^ 7 - 1 \<le> 1 / 2 ^ 49"
proof -
  have "(9007199254740992 :: real) ^ 7 * 562949953421312
      \<le> 562949953421313 * 9007199254740991 ^ 7"
    by simp
  then have "(9007199254740992 / 9007199254740991 :: real) ^ 7
      \<le> 562949953421313 / 562949953421312"
    by (simp add: power_divide field_simps)
  then show ?thesis
    by (simp add: unit_w_def)
qed

lemma fl_eq_zero_iff: "fl x = 0 \<longleftrightarrow> x = 0"
proof -
  obtain g where g: "inverse (unit_w ^ 1) \<le> g" "fl x = x * g"
    using fl_rel [of x] unfolding rel_err_def by blast
  have "0 < g"
    using g(1) by (rule rel_err_factor_pos)
  then show ?thesis
    by (simp add: g(2))
qed

lemma rel_err_fl_count:
  assumes "rel_err n x y" and "m = Suc n"
  shows "rel_err m (fl x) y"
  using rel_err_fl [OF assms(1)] assms(2) by simp

lemma reflectance_f64_rel:
  fixes alpha beta :: real
  defines "s \<equiv> fl (alpha + beta)"
  shows "rel_err 7 (f64_square (fl (fl (alpha - beta) / s)))
           (((alpha - beta) / (alpha + beta)) * ((alpha - beta) / (alpha + beta)))"
proof -
  have s: "rel_err 1 s (alpha + beta)"
    unfolding s_def by (rule fl_rel)
  have d: "rel_err 1 (fl (alpha - beta)) (alpha - beta)"
    by (rule fl_rel)
  have "rel_err (1 + 1) (fl (alpha - beta) / s) ((alpha - beta) / (alpha + beta))"
    using d s by (rule rel_err_divide)
  then have q: "rel_err 3 (fl (fl (alpha - beta) / s)) ((alpha - beta) / (alpha + beta))"
    by (rule rel_err_fl_count) simp
  have "rel_err (3 + 3) (fl (fl (alpha - beta) / s) * fl (fl (alpha - beta) / s))
      (((alpha - beta) / (alpha + beta)) * ((alpha - beta) / (alpha + beta)))"
    using q q by (rule rel_err_mult)
  then show ?thesis
    unfolding f64_square_def by (rule rel_err_fl_count) simp
qed

lemma transmittance_f64_rel:
  fixes alpha beta :: real
  defines "s \<equiv> fl (alpha + beta)"
  shows "rel_err 7 (fl (fl (alpha * beta) * f64_square (fl (2 / s))))
           (alpha * beta * ((2 / (alpha + beta)) * (2 / (alpha + beta))))"
proof -
  have s: "rel_err 1 s (alpha + beta)"
    unfolding s_def by (rule fl_rel)
  have "rel_err (0 + 1) (2 / s) (2 / (alpha + beta))"
    using rel_err_refl s by (rule rel_err_divide)
  then have p: "rel_err 2 (fl (2 / s)) (2 / (alpha + beta))"
    by (rule rel_err_fl_count) simp
  have "rel_err (2 + 2) (fl (2 / s) * fl (2 / s)) ((2 / (alpha + beta)) * (2 / (alpha + beta)))"
    using p p by (rule rel_err_mult)
  then have pp: "rel_err 5 (f64_square (fl (2 / s)))
      ((2 / (alpha + beta)) * (2 / (alpha + beta)))"
    unfolding f64_square_def by (rule rel_err_fl_count) simp
  have ab: "rel_err 1 (fl (alpha * beta)) (alpha * beta)"
    by (rule fl_rel)
  have "rel_err (1 + 5) (fl (alpha * beta) * f64_square (fl (2 / s)))
      (alpha * beta * ((2 / (alpha + beta)) * (2 / (alpha + beta))))"
    using ab pp by (rule rel_err_mult)
  then show ?thesis
    by (rule rel_err_fl_count) simp
qed

text \<open>
  Claim C2, amended. At every angle of incidence where the computed \<open>alpha\<close> is a finite
  number and \<open>alpha + beta\<close> is not zero, \<^verbatim>\<open>reflectanceAndTransmittance\<close> returns a
  reflectance \<open>R\<close> and a transmittance \<open>T\<close> whose sum is 1 within rounding:
  \<open>\<bar>R + T - 1\<bar> \<le> (\<bar>R\<bar> + \<bar>T\<bar>) / 2\<^sup>4\<^sup>9\<close>.
\<close>

theorem reflectance_plus_transmittance_f64:
  assumes "alphaAndBeta_f64 theta_i = Some (alpha, beta)" and "alpha + beta \<noteq> 0"
  shows "\<exists>R T. reflectanceAndTransmittance_f64 theta_i = Some (R, T)
           \<and> \<bar>R + T - 1\<bar> \<le> (\<bar>R\<bar> + \<bar>T\<bar>) / 2 ^ 49"
proof -
  define R where "R = f64_square (fl (fl (alpha - beta) / fl (alpha + beta)))"
  define T where "T = fl (fl (alpha * beta) * f64_square (fl (2 / fl (alpha + beta))))"
  define R0 where "R0 = ((alpha - beta) / (alpha + beta)) * ((alpha - beta) / (alpha + beta))"
  define T0 where "T0 = alpha * beta * ((2 / (alpha + beta)) * (2 / (alpha + beta)))"
  have nz: "fl (alpha + beta) \<noteq> 0"
    using assms(2) by (simp add: fl_eq_zero_iff)
  have ret: "reflectanceAndTransmittance_f64 theta_i = Some (R, T)"
    unfolding R_def T_def using assms(1) nz by (rule reflectance_f64_Some)
  have one: "R0 + T0 = 1"
    using power_sum_identity [OF assms(2)] by (simp add: R0_def T0_def power2_eq_square)
  have "\<bar>R - R0\<bar> \<le> (unit_w ^ 7 - 1) * \<bar>R\<bar>"
    unfolding R_def R0_def by (intro rel_err_bound reflectance_f64_rel)
  moreover have "\<bar>T - T0\<bar> \<le> (unit_w ^ 7 - 1) * \<bar>T\<bar>"
    unfolding T_def T0_def by (intro rel_err_bound transmittance_f64_rel)
  ultimately have "\<bar>R - R0\<bar> + \<bar>T - T0\<bar> \<le> (unit_w ^ 7 - 1) * (\<bar>R\<bar> + \<bar>T\<bar>)"
    by (simp add: algebra_simps)
  also have "\<dots> \<le> 1 / 2 ^ 49 * (\<bar>R\<bar> + \<bar>T\<bar>)"
    using unit_w_seven by (intro mult_right_mono) simp_all
  finally have "\<bar>R - R0\<bar> + \<bar>T - T0\<bar> \<le> (\<bar>R\<bar> + \<bar>T\<bar>) / 2 ^ 49"
    by simp
  moreover have "R + T - 1 = (R - R0) + (T - T0)"
    using one by simp
  ultimately have "\<bar>R + T - 1\<bar> \<le> (\<bar>R\<bar> + \<bar>T\<bar>) / 2 ^ 49"
    by linarith
  with ret show ?thesis
    by blast
qed

theorem reflectance_plus_transmittance_f64_witness:
  "alphaAndBeta_f64 0 = Some (1, 3 / 2) \<and> (1::real) + 3 / 2 \<noteq> 0
   \<and> reflectanceAndTransmittance_f64 0
       = Some (1441151880758559 / 36028797018963968, 4323455642275677 / 4503599627370496)
   \<and> \<bar>1441151880758559 / 36028797018963968 + 4323455642275677 / 4503599627370496 - (1::real)\<bar>
       \<le> (\<bar>1441151880758559 / 36028797018963968\<bar> + \<bar>4323455642275677 / 4503599627370496\<bar>)
           / 2 ^ 49"
proof -
  have nz: "(1::real) + 3 / 2 \<noteq> 0"
    by simp
  show ?thesis
    using reflectance_plus_transmittance_f64 [OF alphaAndBeta_f64_zero nz]
    by (simp add: alphaAndBeta_f64_zero reflectance_f64_zero)
qed

end
